theory Spec2Isabelle
  imports Main "HOL-Library.Word" "HOL-Library.AList"
begin

section \<open>The cache layer of CloudFS (cache\_layer.c)\<close>

text \<open>
  The cache layer keeps compressed segments as files of the cache directory, one file per
  segment key, and counts the bytes that are left in \<open>Remaining_space\<close>. Segments that do
  not fit are kept in the cloud bucket. The model below follows \<^verbatim>\<open>cache_layer.c\<close>
  function by function. The file system, the clock, the compression layer and the cloud
  client are outside that file: their effect on the cache directory and on the bucket is
  written out, and whether each of their calls fails is read from an environment.
\<close>

subsection \<open>Machine integers\<close>

text \<open>
  \<open>int\<close> is 32 bits wide and \<open>long\<close> (also \<open>off_t\<close>) 64 bits wide, as on Linux x86-64.
  Arithmetic wraps around in two's complement; comparisons of the source are signed
  (\<open><s\<close>, \<open>\<le>s\<close>).
\<close>

type_synonym c_int = "32 word"
type_synonym c_long = "64 word"

subsection \<open>State\<close>

type_synonym key = string

text \<open>A file of the cache directory: its size in bytes and the extended attribute
  \<^verbatim>\<open>user.timestamp\<close>, absent until \<open>update_timestamp\<close> has set it.\<close>

record cfile =
  st_size :: nat
  u_timestamp :: "nat option"

text \<open>The calls made to the cloud client and to the decompressor, in the order made.\<close>

datatype call =
    Cloud_get key
  | Cloud_put key nat
  | Cloud_delete key
  | Decompress key string

text \<open>
  \<open>Total_space\<close> and \<open>Remaining_space\<close> are the two static variables of the file.
  \<open>cache_dir\<close> is the directory \<^verbatim>\<open>Cache_path\<close> (file name, file), \<open>bucket\<close> the
  cloud bucket (object key, object size), both with one entry per name.
\<close>

record state =
  Total_space :: c_long
  Remaining_space :: c_long
  cache_dir :: "(key \<times> cfile) list"
  bucket :: "(key \<times> nat) list"
  calls :: "call list"

text \<open>
  The outcome of the external calls made during one operation of the cache layer. Each
  operation makes each of these calls at most once. \<open>cloudfs_error\<close> is what the function
  of that name (defined in cloudfs.c) returns after a failed system call.
\<close>

record env =
  clock :: nat
  clock_gettime_fails :: bool
  lsetxattr_fails :: bool
  lstat_fails :: bool
  remove_fails :: bool
  cloud_get_fails :: bool
  cloud_put_fails :: bool
  cloud_delete_fails :: bool
  compress_ret :: c_long
  decompress_ret :: c_int
  cloudfs_error :: c_int

definition CANNOT_EVICT :: c_int where
  "CANNOT_EVICT = 100"

subsection \<open>System calls on the cache directory\<close>

text \<open>\<^verbatim>\<open>access(cache_file, F_OK) < 0\<close>: there is no file of that name.\<close>

definition access_fails :: "key \<Rightarrow> state \<Rightarrow> bool" where
  "access_fails k s = (map_of (cache_dir s) k = None)"

text \<open>\<^verbatim>\<open>fopen(cache_file, "wb")\<close>: an empty file of that name. The source does not
  check the result; the call is taken to succeed.\<close>

definition fopen_wb :: "key \<Rightarrow> state \<Rightarrow> state" where
  "fopen_wb k s =
     s\<lparr>cache_dir := AList.update k \<lparr>st_size = 0, u_timestamp = None\<rparr> (cache_dir s)\<rparr>"

text \<open>\<^verbatim>\<open>lstat(cache_file, &sb)\<close>: the return value and \<open>sb.st_size\<close>.\<close>

definition lstat :: "key \<Rightarrow> env \<Rightarrow> state \<Rightarrow> c_int \<times> nat" where
  "lstat k e s =
     (case map_of (cache_dir s) k of
        None \<Rightarrow> (- 1, 0)
      | Some f \<Rightarrow> if lstat_fails e then (- 1, 0) else (0, st_size f))"

text \<open>\<^verbatim>\<open>remove(cache_file)\<close>.\<close>

definition remove_file :: "key \<Rightarrow> env \<Rightarrow> state \<Rightarrow> c_int \<times> state" where
  "remove_file k e s =
     (if remove_fails e \<or> map_of (cache_dir s) k = None then (- 1, s)
      else (0, s\<lparr>cache_dir := AList.delete k (cache_dir s)\<rparr>))"

text \<open>\<^verbatim>\<open>lsetxattr(cache_file, U_TIMESTAMP, &ts, ...)\<close>.\<close>

definition lsetxattr :: "key \<Rightarrow> nat \<Rightarrow> env \<Rightarrow> state \<Rightarrow> c_int \<times> state" where
  "lsetxattr k ts e s =
     (case map_of (cache_dir s) k of
        None \<Rightarrow> (- 1, s)
      | Some f \<Rightarrow>
          if lsetxattr_fails e then (- 1, s)
          else (0, s\<lparr>cache_dir := AList.update k (f\<lparr>u_timestamp := Some ts\<rparr>) (cache_dir s)\<rparr>))"

subsection \<open>The cloud client and the compression layer\<close>

text \<open>
  Modelled from the spec: \<^verbatim>\<open>cloud_get_object\<close> of cloudapi.h, which is not part of
  cache\_layer.c (\<open>get(bucket, key, sink) -> Error?\<close>). The bytes of the object are handed
  to \<open>get_buffer\<close>, which writes them to the file opened just before. A failed call, or a
  key that the bucket does not hold, writes nothing. The result is not looked at by the
  callers, so none is returned.
\<close>

definition cloud_get_object :: "key \<Rightarrow> env \<Rightarrow> state \<Rightarrow> state" where
  "cloud_get_object k e s =
     (let s' = s\<lparr>calls := calls s @ [Cloud_get k]\<rparr> in
      if cloud_get_fails e then s'
      else case map_of (bucket s) k of
             None \<Rightarrow> s'
           | Some n \<Rightarrow>
               s'\<lparr>cache_dir := AList.update k \<lparr>st_size = n, u_timestamp = None\<rparr> (cache_dir s')\<rparr>)"

text \<open>
  Modelled from the spec: \<^verbatim>\<open>cloud_put_object\<close> of cloudapi.h
  (\<open>put(bucket, key, size, source) -> Error?\<close>). A successful call stores an object of the
  given size under the key; a failed call stores nothing.
\<close>

definition cloud_put_object :: "key \<Rightarrow> c_long \<Rightarrow> env \<Rightarrow> state \<Rightarrow> state" where
  "cloud_put_object k len e s =
     (let s' = s\<lparr>calls := calls s @ [Cloud_put k (unat len)]\<rparr> in
      if cloud_put_fails e then s'
      else s'\<lparr>bucket := AList.update k (unat len) (bucket s)\<rparr>)"

text \<open>
  Modelled from the spec: \<^verbatim>\<open>cloud_delete_object\<close> of cloudapi.h
  (\<open>delete(bucket, key) -> Error?\<close>). A successful call leaves no object under the key; a
  failed call leaves the bucket as it is.
\<close>

definition cloud_delete_object :: "key \<Rightarrow> env \<Rightarrow> state \<Rightarrow> state" where
  "cloud_delete_object k e s =
     (let s' = s\<lparr>calls := calls s @ [Cloud_delete k]\<rparr> in
      if cloud_delete_fails e then s'
      else s'\<lparr>bucket := AList.delete k (bucket s)\<rparr>)"

text \<open>
  Modelled from the spec: \<^verbatim>\<open>compress_layer_compress\<close> of compress\_layer.h
  (\<open>compress(source_path, offset, length, dest_path) -> compressed_size | Error\<close>). The
  environment gives the return value. A non-negative value is the size of the file that
  the call has written under the key's name, in place of any file of that name; a negative
  value is a failure, taken to leave the directory as it is.
\<close>

definition compress_layer_compress ::
  "string \<Rightarrow> c_long \<Rightarrow> c_long \<Rightarrow> key \<Rightarrow> env \<Rightarrow> state \<Rightarrow> c_long \<times> state" where
  "compress_layer_compress fpath offset len k e s =
     (if compress_ret e <s 0 then (compress_ret e, s)
      else (compress_ret e,
            s\<lparr>cache_dir :=
                AList.update k \<lparr>st_size = unat (compress_ret e), u_timestamp = None\<rparr>
                  (cache_dir s)\<rparr>))"

text \<open>
  Modelled from the spec: \<^verbatim>\<open>compress_layer_decompress\<close> of compress\_layer.h
  (\<open>decompress(source_path, dest_path) -> () | Error\<close>). The call is recorded; the
  environment gives the return value.
\<close>

definition compress_layer_decompress :: "key \<Rightarrow> string \<Rightarrow> env \<Rightarrow> state \<Rightarrow> c_int \<times> state" where
  "compress_layer_decompress k target_file e s =
     (decompress_ret e, s\<lparr>calls := calls s @ [Decompress k target_file]\<rparr>)"

subsection \<open>The functions of cache\_layer.c\<close>

text \<open>The subtraction is made on \<open>int\<close> and its result widened to \<open>long\<close>.\<close>

definition cache_layer_init :: "c_int \<Rightarrow> c_int \<Rightarrow> state \<Rightarrow> c_int \<times> state" where
  "cache_layer_init total_space init_space s =
     (0, s\<lparr>Total_space := scast total_space,
           Remaining_space := scast (total_space - init_space)\<rparr>)"

definition update_timestamp :: "key \<Rightarrow> env \<Rightarrow> state \<Rightarrow> c_int \<times> state" where
  "update_timestamp cache_file e s =
     (if clock_gettime_fails e then (cloudfs_error e, s)
      else case lsetxattr cache_file (clock e) e s of
             (retval, s') \<Rightarrow> if retval <s 0 then (cloudfs_error e, s') else (retval, s'))"

definition evict_segments :: "key \<Rightarrow> state \<Rightarrow> c_int \<times> state" where
  "evict_segments keep s = (0, s)"

text \<open>
  \<open>cache_layer_download_seg\<close> with the eviction function as a parameter; the source calls
  \<open>evict_segments\<close>.
\<close>

definition download_seg_with ::
  "(key \<Rightarrow> state \<Rightarrow> c_int \<times> state) \<Rightarrow> string \<Rightarrow> key \<Rightarrow> env \<Rightarrow> state \<Rightarrow> c_int \<times> state" where
  "download_seg_with evict target_file k e s =
     (if access_fails k s then
        let s1 = cloud_get_object k e (fopen_wb k s) in
        case lstat k e s1 of (retval, sz) \<Rightarrow>
        if retval <s 0 then (cloudfs_error e, s1)
        else
          let s2 = s1\<lparr>Remaining_space := Remaining_space s1 - of_nat sz\<rparr> in
          if Remaining_space s2 <s 0 then
            case evict k s2 of (retval, s3) \<Rightarrow>
            if retval = CANNOT_EVICT then
              let s4 = s3\<lparr>Remaining_space := Remaining_space s3 + of_nat sz\<rparr> in
              case compress_layer_decompress k target_file e s4 of (retval, s5) \<Rightarrow>
              if retval <s 0 then (retval, s5)
              else
                case remove_file k e s5 of (retval, s6) \<Rightarrow>
                if retval <s 0 then (cloudfs_error e, s6) else (retval, s6)
            else if retval <s 0 then (retval, s3)
            else
              case update_timestamp k e s3 of (retval, s4) \<Rightarrow>
              if retval <s 0 then (retval, s4)
              else (retval, cloud_delete_object k e s4)
          else
            case update_timestamp k e s2 of (retval, s3) \<Rightarrow>
            if retval <s 0 then (retval, s3)
            else (retval, cloud_delete_object k e s3)
      else
        case update_timestamp k e s of (retval, s1) \<Rightarrow>
        if retval <s 0 then (retval, s1)
        else compress_layer_decompress k target_file e s1)"

definition cache_layer_download_seg :: "string \<Rightarrow> key \<Rightarrow> env \<Rightarrow> state \<Rightarrow> c_int \<times> state" where
  "cache_layer_download_seg = download_seg_with evict_segments"

text \<open>The \<open>long\<close> result of the compression is returned as \<open>int\<close> when it is negative.\<close>

definition cache_layer_upload_seg ::
  "string \<Rightarrow> c_long \<Rightarrow> key \<Rightarrow> c_long \<Rightarrow> env \<Rightarrow> state \<Rightarrow> c_int \<times> state" where
  "cache_layer_upload_seg fpath offset k len e s =
     (case compress_layer_compress fpath offset len k e s of (len_compressed_file, s1) \<Rightarrow>
      if len_compressed_file <s 0 then (ucast len_compressed_file, s1)
      else if Remaining_space s1 <s len_compressed_file then
        let s2 = cloud_put_object k len_compressed_file e s1 in
        case remove_file k e s2 of (retval, s3) \<Rightarrow>
        if retval <s 0 then (cloudfs_error e, s3) else (retval, s3)
      else
        case update_timestamp k e s1 of (retval, s2) \<Rightarrow>
        if retval <s 0 then (retval, s2)
        else (retval, s2\<lparr>Remaining_space := Remaining_space s2 - len_compressed_file\<rparr>))"

definition cache_layer_remove_seg :: "key \<Rightarrow> env \<Rightarrow> state \<Rightarrow> c_int \<times> state" where
  "cache_layer_remove_seg k e s =
     (if access_fails k s then (0, cloud_delete_object k e s)
      else
        case lstat k e s of (retval, sz) \<Rightarrow>
        if retval <s 0 then (cloudfs_error e, s)
        else
          case remove_file k e s of (retval, s1) \<Rightarrow>
          if retval <s 0 then (cloudfs_error e, s1)
          else (retval, s1\<lparr>Remaining_space := Remaining_space s1 + of_nat sz\<rparr>))"

subsection \<open>Sequences of operations\<close>

datatype op =
    Download string key
  | Upload string c_long key c_long
  | Remove key

fun step :: "op \<Rightarrow> env \<Rightarrow> state \<Rightarrow> c_int \<times> state" where
  "step (Download target_file k) e s = cache_layer_download_seg target_file k e s"
| "step (Upload fpath offset k len) e s = cache_layer_upload_seg fpath offset k len e s"
| "step (Remove k) e s = cache_layer_remove_seg k e s"

text \<open>Each operation of a sequence comes with the environment it runs in.\<close>

fun run :: "(op \<times> env) list \<Rightarrow> state \<Rightarrow> state" where
  "run [] s = s"
| "run ((p, e) # rest) s = run rest (snd (step p e s))"

text \<open>\<open>holds_along C ops s\<close>: the condition \<open>C\<close> holds of every operation of the sequence, in
  the state in which that operation starts.\<close>

fun holds_along :: "(op \<Rightarrow> env \<Rightarrow> state \<Rightarrow> bool) \<Rightarrow> (op \<times> env) list \<Rightarrow> state \<Rightarrow> bool" where
  "holds_along C [] s = True"
| "holds_along C ((p, e) # rest) s = (C p e s \<and> holds_along C rest (snd (step p e s)))"

subsection \<open>The invariants of the specification\<close>

text \<open>The bytes taken by the files of the cache directory.\<close>

definition used :: "(key \<times> cfile) list \<Rightarrow> nat" where
  "used dir = sum_list (map (\<lambda>(k, f). st_size f) dir)"

text \<open>Space conservation, in the arithmetic of \<open>long\<close>.\<close>

definition space_conserved :: "state \<Rightarrow> bool" where
  "space_conserved s = (Remaining_space s = Total_space s - of_nat (used (cache_dir s)))"

text \<open>No name occurs twice in the cache directory.\<close>

definition names_distinct :: "state \<Rightarrow> bool" where
  "names_distinct s = distinct (map fst (cache_dir s))"

text \<open>Mutual exclusivity: no key is both a file of the cache directory and an object of the
  bucket.\<close>

definition exclusive :: "state \<Rightarrow> bool" where
  "exclusive s = (fst ` set (cache_dir s) \<inter> fst ` set (bucket s) = {})"

text \<open>
  The operations that keep the count of \<open>Remaining_space\<close> right: a download that misses
  the cache and whose \<open>lstat\<close> succeeds, or one that hits; an upload of a key that has no
  file in the cache directory, whose compression succeeds and whose last local step (the
  removal of the file when there is no room, the timestamp when there is) succeeds; any
  removal.
\<close>

fun keeps_count :: "op \<Rightarrow> env \<Rightarrow> state \<Rightarrow> bool" where
  "keeps_count (Download target_file k) e s = (access_fails k s \<longrightarrow> \<not> lstat_fails e)"
| "keeps_count (Upload fpath offset k len) e s =
     (access_fails k s \<and> \<not> compress_ret e <s 0 \<and>
      (if Remaining_space s <s compress_ret e then \<not> remove_fails e
       else \<not> clock_gettime_fails e \<and> \<not> lsetxattr_fails e))"
| "keeps_count (Remove k) e s = True"

text \<open>
  The operations that keep local and remote copies apart: a download that hits the cache,
  or misses it for a key that the bucket does not hold, or misses it and gets through
  \<open>lstat\<close>, the timestamp and the deletion of the remote object; an upload whose
  compression succeeds and that either finds no room and removes the local file, or finds
  room for a key that the bucket does not hold; any removal.
\<close>

fun keeps_apart :: "op \<Rightarrow> env \<Rightarrow> state \<Rightarrow> bool" where
  "keeps_apart (Download target_file k) e s =
     (access_fails k s \<and> map_of (bucket s) k \<noteq> None \<longrightarrow>
        \<not> lstat_fails e \<and> \<not> clock_gettime_fails e \<and> \<not> lsetxattr_fails e \<and>
        \<not> cloud_delete_fails e)"
| "keeps_apart (Upload fpath offset k len) e s =
     (\<not> compress_ret e <s 0 \<and>
      (if Remaining_space s <s compress_ret e then \<not> remove_fails e
       else map_of (bucket s) k = None))"
| "keeps_apart (Remove k) e s = True"

subsection \<open>Concrete states and environments\<close>

text \<open>The state of a process that has just started: the static variables are zero, the
  cache directory and the bucket are empty.\<close>

definition boot :: state where
  "boot = \<lparr>Total_space = 0, Remaining_space = 0, cache_dir = [], bucket = [], calls = []\<rparr>"

text \<open>An environment in which no call fails; the compression gives an empty file.\<close>

definition no_failure :: env where
  "no_failure =
     \<lparr>clock = 1, clock_gettime_fails = False, lsetxattr_fails = False,
      lstat_fails = False, remove_fails = False, cloud_get_fails = False,
      cloud_put_fails = False, cloud_delete_fails = False,
      compress_ret = 0, decompress_ret = 0, cloudfs_error = - 1\<rparr>"

text \<open>The state in which \<open>cache_layer_download_seg\<close> calls the eviction function, when
  the key has no file in the cache directory and \<open>lstat\<close> succeeds: the segment has been
  fetched into the cache directory and its size taken off \<open>Remaining_space\<close>.\<close>

definition reserved :: "key \<Rightarrow> env \<Rightarrow> state \<Rightarrow> state" where
  "reserved k e s =
     (let s1 = cloud_get_object k e (fopen_wb k s) in
      s1\<lparr>Remaining_space := Remaining_space s1 - of_nat (snd (lstat k e s1))\<rparr>)"

text \<open>A cache of 1000 bytes that holds the segment \<open>K\<close> of 150 bytes.\<close>

definition warm :: state where
  "warm =
     \<lparr>Total_space = 1000, Remaining_space = 850,
      cache_dir = [(''K'', \<lparr>st_size = 150, u_timestamp = Some 0\<rparr>)],
      bucket = [(''R'', 700)], calls = []\<rparr>"

text \<open>A cache of 100 bytes, empty, and a bucket that holds the segment \<open>K\<close> of 150 bytes.\<close>

definition tight :: state where
  "tight =
     \<lparr>Total_space = 100, Remaining_space = 100, cache_dir = [],
      bucket = [(''K'', 150)], calls = []\<rparr>"

text \<open>The scenario of the specification: a cache of 1000 bytes of which none is in use.\<close>

definition started :: state where
  "started = snd (cache_layer_init 1000 0 boot)"

text \<open>A sequence of operations: \<open>A\<close> (400 bytes compressed) is uploaded and stays local;
  it is read back; \<open>B\<close> (700 bytes) finds 600 bytes left and goes to the bucket; it is
  downloaded into the cache; both are removed.\<close>

definition scenario :: "(op \<times> env) list" where
  "scenario =
     [(Upload ''f'' 0 ''A'' 4096, no_failure\<lparr>compress_ret := 400\<rparr>),
      (Download ''t'' ''A'', no_failure),
      (Upload ''f'' 4096 ''B'' 4096, no_failure\<lparr>compress_ret := 700\<rparr>),
      (Download ''t'' ''B'', no_failure),
      (Remove ''A'', no_failure),
      (Remove ''B'', no_failure)]"

text \<open>The same segment uploaded twice.\<close>

definition upload_twice :: "(op \<times> env) list" where
  "upload_twice =
     [(Upload ''f'' 0 ''A'' 4096, no_failure\<lparr>compress_ret := 400\<rparr>),
      (Upload ''f'' 0 ''A'' 4096, no_failure\<lparr>compress_ret := 400\<rparr>)]"

text \<open>\<open>R\<close> (700 bytes) is uploaded when only 600 bytes are left, and once more after
  room has been made.\<close>

definition upload_again :: "(op \<times> env) list" where
  "upload_again =
     [(Upload ''f'' 0 ''A'' 4096, no_failure\<lparr>compress_ret := 400\<rparr>),
      (Upload ''f'' 4096 ''R'' 4096, no_failure\<lparr>compress_ret := 700\<rparr>),
      (Remove ''A'', no_failure),
      (Upload ''f'' 4096 ''R'' 4096, no_failure\<lparr>compress_ret := 700\<rparr>)]"

section \<open>Properties\<close>

lemmas model_defs =
  cache_layer_download_seg_def download_seg_with_def evict_segments_def
  cache_layer_upload_seg_def cache_layer_remove_seg_def cache_layer_init_def
  update_timestamp_def access_fails_def fopen_wb_def lstat_def remove_file_def lsetxattr_def
  cloud_get_object_def cloud_put_object_def cloud_delete_object_def
  compress_layer_compress_def compress_layer_decompress_def CANNOT_EVICT_def

subsection \<open>Initialisation\<close>

lemma sint_scast_int_long: "sint (scast (w :: c_int) :: c_long) = sint w"
  by (simp add: sint_up_scast is_up)

text \<open>
  Claim C10, as amended. \<open>cache_layer_init\<close> returns 0 for every pair of arguments and sets
  \<open>Remaining_space\<close> to the \<open>int\<close> difference of its arguments, widened to \<open>long\<close>, with no
  validation; it touches neither the cache directory nor the bucket. Whenever the
  difference fits in an \<open>int\<close>, \<open>Remaining_space\<close> is that difference, so that an
  \<open>init_space\<close> above \<open>total_space\<close> leaves it negative; it always fits when
  \<open>total_space\<close> is not negative and \<open>init_space\<close> is above it.
\<close>

theorem cache_layer_init_effect:
  "fst (cache_layer_init total_space init_space s) = 0 \<and>
   Total_space (snd (cache_layer_init total_space init_space s)) = scast total_space \<and>
   Remaining_space (snd (cache_layer_init total_space init_space s)) =
     scast (total_space - init_space) \<and>
   cache_dir (snd (cache_layer_init total_space init_space s)) = cache_dir s \<and>
   bucket (snd (cache_layer_init total_space init_space s)) = bucket s \<and>
   (- (2 ^ 31) \<le> sint total_space - sint init_space \<and>
    sint total_space - sint init_space < 2 ^ 31 \<longrightarrow>
      sint (Remaining_space (snd (cache_layer_init total_space init_space s))) =
        sint total_space - sint init_space \<and>
      (sint total_space < sint init_space \<longrightarrow>
        Remaining_space (snd (cache_layer_init total_space init_space s)) <s 0)) \<and>
   (0 \<le>s total_space \<and> total_space <s init_space \<longrightarrow>
      Remaining_space (snd (cache_layer_init total_space init_space s)) <s 0)"
proof -
  have diff: "sint (total_space - init_space) = sint total_space - sint init_space"
    if "- (2 ^ 31) \<le> sint total_space - sint init_space"
      and "sint total_space - sint init_space < 2 ^ 31"
    using that by (simp add: sint_word_diff signed_take_bit_int_eq_self)
  have "sint (total_space - init_space) < 0"
    if "0 \<le>s total_space" and "total_space <s init_space"
  proof -
    from that have "0 \<le> sint total_space" and "sint total_space < sint init_space"
      by (simp_all add: word_sle_eq word_sless_alt)
    moreover have "sint init_space < 2 ^ 31"
      using sint_lt [of init_space] by simp
    ultimately show ?thesis
      using diff by simp
  qed
  with diff show ?thesis
    by (auto simp add: cache_layer_init_def sint_scast_int_long word_sless_alt)
qed

text \<open>The theorem at a cache of 100 bytes of which 150 are said to be in use.\<close>

theorem cache_layer_init_effect_witness:
  "- (2 ^ 31) \<le> sint (100 :: c_int) - sint (150 :: c_int) \<and>
   sint (100 :: c_int) - sint (150 :: c_int) < 2 ^ 31 \<and>
   sint (100 :: c_int) < sint (150 :: c_int) \<and>
   (0 :: c_int) \<le>s 100 \<and> (100 :: c_int) <s 150 \<and>
   fst (cache_layer_init 100 150 boot) = 0 \<and>
   sint (Remaining_space (snd (cache_layer_init 100 150 boot))) = - 50 \<and>
   Remaining_space (snd (cache_layer_init 100 150 boot)) <s 0"
  using cache_layer_init_effect [of 100 150 boot] by (simp add: word_sless_alt word_sle_eq)

text \<open>
  Claim C10 as stated fails where the \<open>int\<close> subtraction wraps around: with
  \<open>total_space = INT_MIN\<close> and \<open>init_space = 1\<close>, \<open>init_space\<close> is above \<open>total_space\<close> and
  \<open>Remaining_space\<close> becomes \<open>INT_MAX\<close>.
\<close>

theorem cache_layer_init_overflow:
  "(- 2147483648 :: c_int) <s 1 \<and>
   Remaining_space (snd (cache_layer_init (- 2147483648) 1 boot)) = 2147483647 \<and>
   \<not> Remaining_space (snd (cache_layer_init (- 2147483648) 1 boot)) <s 0"
  by (simp add: cache_layer_init_def boot_def word_sless_alt)

subsection \<open>Eviction\<close>

text \<open>
  Claim C1. The documentation of \<open>evict_segments\<close> asks for \<open>CANNOT_EVICT\<close> when \<open>keep\<close> is
  the only segment with the least reference count, and for victims otherwise. The function
  does neither: for every key and every state it returns 0 and leaves the state as it is.
  So it does when \<open>cache_layer_download_seg\<close> calls it for the segment \<open>K\<close> of 150 bytes,
  fetched into an empty cache of 100 bytes: \<open>K\<close> is the only segment there is.
\<close>

theorem evict_segments_stub:
  "evict_segments keep s = (0, s) \<and> fst (evict_segments keep s) \<noteq> CANNOT_EVICT \<and>
   cache_dir (reserved ''K'' no_failure tight) =
     [(''K'', \<lparr>st_size = 150, u_timestamp = None\<rparr>)] \<and>
   Remaining_space (reserved ''K'' no_failure tight) = - 50 \<and>
   evict_segments ''K'' (reserved ''K'' no_failure tight) =
     (0, reserved ''K'' no_failure tight)"
  by (simp add: evict_segments_def CANNOT_EVICT_def reserved_def cloud_get_object_def
      fopen_wb_def lstat_def tight_def no_failure_def Let_def)

text \<open>
  Claim C4. A download into a cache of 100 bytes of a segment of 150 bytes returns 0 with
  the segment kept in the cache directory and \<open>Remaining_space\<close> at -50: nothing is evicted
  and the write is not reversed.
\<close>

theorem download_leaves_negative_space:
  "fst (cache_layer_download_seg ''t'' ''K'' no_failure
         (snd (cache_layer_init 100 0 (boot\<lparr>bucket := [(''K'', 150)]\<rparr>)))) = 0 \<and>
   Remaining_space (snd (cache_layer_download_seg ''t'' ''K'' no_failure
         (snd (cache_layer_init 100 0 (boot\<lparr>bucket := [(''K'', 150)]\<rparr>))))) = - 50 \<and>
   Remaining_space (snd (cache_layer_download_seg ''t'' ''K'' no_failure
         (snd (cache_layer_init 100 0 (boot\<lparr>bucket := [(''K'', 150)]\<rparr>))))) <s 0 \<and>
   map_of (cache_dir (snd (cache_layer_download_seg ''t'' ''K'' no_failure
         (snd (cache_layer_init 100 0 (boot\<lparr>bucket := [(''K'', 150)]\<rparr>)))))) ''K'' =
     Some \<lparr>st_size = 150, u_timestamp = Some 1\<rparr>"
  by (simp add: model_defs boot_def no_failure_def Let_def word_sless_alt)

subsection \<open>Failures of the cloud client\<close>

text \<open>
  Claim C8. The results of \<open>cloud_get_object\<close>, \<open>cloud_put_object\<close> and
  \<open>cloud_delete_object\<close> are dropped. A removal whose remote deletion fails returns 0 and
  the object stays in the bucket; an upload whose remote put fails goes on to remove the
  local file and returns 0, so that the segment is in neither place.
\<close>

theorem cloud_failure_not_surfaced:
  "fst (cache_layer_remove_seg ''K'' (no_failure\<lparr>cloud_delete_fails := True\<rparr>)
         (boot\<lparr>bucket := [(''K'', 150)]\<rparr>)) = 0 \<and>
   bucket (snd (cache_layer_remove_seg ''K'' (no_failure\<lparr>cloud_delete_fails := True\<rparr>)
         (boot\<lparr>bucket := [(''K'', 150)]\<rparr>))) = [(''K'', 150)] \<and>
   cache_layer_upload_seg ''f'' 0 ''K'' 4096
      (no_failure\<lparr>compress_ret := 400, cloud_put_fails := True\<rparr>)
      (snd (cache_layer_init 100 0 boot)) =
   (0, (snd (cache_layer_init 100 0 boot))\<lparr>calls := [Cloud_put ''K'' 400]\<rparr>)"
  by (simp add: model_defs boot_def no_failure_def Let_def word_sless_alt)

subsection \<open>Download\<close>

lemma map_of_None_delete: "map_of al k = None \<Longrightarrow> AList.delete k al = al"
  by (simp add: map_of_eq_None_iff)

lemma fetch_result:
  "\<exists>n. cloud_get_object k e (fopen_wb k s) =
     s\<lparr>cache_dir := AList.update k \<lparr>st_size = n, u_timestamp = None\<rparr> (cache_dir s),
       calls := calls s @ [Cloud_get k]\<rparr>"
proof (cases "cloud_get_fails e \<or> map_of (bucket s) k = None")
  case True
  then have "cloud_get_object k e (fopen_wb k s) =
     s\<lparr>cache_dir := AList.update k \<lparr>st_size = 0, u_timestamp = None\<rparr> (cache_dir s),
       calls := calls s @ [Cloud_get k]\<rparr>"
    by (auto simp add: cloud_get_object_def fopen_wb_def Let_def)
  then show ?thesis ..
next
  case False
  then obtain m where "map_of (bucket s) k = Some m" and "\<not> cloud_get_fails e"
    by auto
  then have "cloud_get_object k e (fopen_wb k s) =
     s\<lparr>cache_dir := AList.update k \<lparr>st_size = m, u_timestamp = None\<rparr> (cache_dir s),
       calls := calls s @ [Cloud_get k]\<rparr>"
    by (simp add: cloud_get_object_def fopen_wb_def Let_def)
  then show ?thesis ..
qed

text \<open>
  The branch of the download for \<open>CANNOT_EVICT\<close> (source lines 156 to 168), for any eviction
  function that reports it without touching the state: \<open>Remaining_space\<close> is back at its
  value before the operation, the fetched file is decompressed to the target and, when the
  decompression and the removal succeed, removed again.
\<close>

lemma download_seg_with_cannot_evict:
  assumes "access_fails k s" and "\<not> lstat_fails e"
    and "Remaining_space (reserved k e s) <s 0"
    and "evict k (reserved k e s) = (CANNOT_EVICT, reserved k e s)"
  shows "case download_seg_with evict target_file k e s of (retval, s') \<Rightarrow>
     Remaining_space s' = Remaining_space s \<and> Total_space s' = Total_space s \<and>
     bucket s' = bucket s \<and>
     calls s' = calls s @ [Cloud_get k, Decompress k target_file] \<and>
     (decompress_ret e <s 0 \<longrightarrow> retval = decompress_ret e) \<and>
     (\<not> decompress_ret e <s 0 \<and> \<not> remove_fails e \<longrightarrow>
        retval = 0 \<and> access_fails k s' \<and> cache_dir s' = cache_dir s)"
proof -
  obtain n where s1: "cloud_get_object k e (fopen_wb k s) =
     s\<lparr>cache_dir := AList.update k \<lparr>st_size = n, u_timestamp = None\<rparr> (cache_dir s),
       calls := calls s @ [Cloud_get k]\<rparr>"
    using fetch_result [of k e s] by auto
  have res: "reserved k e s =
     s\<lparr>cache_dir := AList.update k \<lparr>st_size = n, u_timestamp = None\<rparr> (cache_dir s),
       calls := calls s @ [Cloud_get k],
       Remaining_space := Remaining_space s - of_nat n\<rparr>"
    using assms(2) by (simp add: reserved_def s1 lstat_def update_conv')
  have dir: "AList.delete k (cache_dir s) = cache_dir s"
    using assms(1) by (simp add: access_fails_def map_of_None_delete)
  show ?thesis
    using assms res dir
    by (simp add: download_seg_with_def s1 lstat_def update_conv' compress_layer_decompress_def
        remove_file_def access_fails_def delete_update_same Let_def delete_conv')
qed


text \<open>
  Claim C9. A download of a key that has a file in the cache directory leaves
  \<open>Remaining_space\<close>, \<open>Total_space\<close> and the bucket as they are, makes no call to the cloud
  client, and changes no file of the cache directory but the timestamp of the key's file.
  When the timestamp can be set, it is set to the clock's value, the file is decompressed
  to the target and the result of the decompression is returned.
\<close>

theorem download_hit_frame:
  assumes "map_of (cache_dir s) k = Some f"
  shows "case cache_layer_download_seg target_file k e s of (retval, s') \<Rightarrow>
     Remaining_space s' = Remaining_space s \<and> Total_space s' = Total_space s \<and>
     bucket s' = bucket s \<and>
     (\<forall>k'. k' \<noteq> k \<longrightarrow> map_of (cache_dir s') k' = map_of (cache_dir s) k') \<and>
     map_option st_size (map_of (cache_dir s') k) = Some (st_size f) \<and>
     (calls s' = calls s \<or> calls s' = calls s @ [Decompress k target_file]) \<and>
     (\<not> clock_gettime_fails e \<and> \<not> lsetxattr_fails e \<longrightarrow>
        retval = decompress_ret e \<and>
        map_of (cache_dir s') k = Some (f\<lparr>u_timestamp := Some (clock e)\<rparr>) \<and>
        calls s' = calls s @ [Decompress k target_file])"
  using assms
  by (simp add: model_defs update_conv' split: prod.splits if_splits)

text \<open>The theorem at the cache \<open>warm\<close> and the clock at 7.\<close>

theorem download_hit_frame_witness:
  "map_of (cache_dir warm) ''K'' = Some \<lparr>st_size = 150, u_timestamp = Some 0\<rparr> \<and>
   (case cache_layer_download_seg ''t'' ''K'' (no_failure\<lparr>clock := 7\<rparr>) warm of (retval, s') \<Rightarrow>
      retval = 0 \<and> Remaining_space s' = 850 \<and> bucket s' = [(''R'', 700)] \<and>
      map_of (cache_dir s') ''K'' = Some \<lparr>st_size = 150, u_timestamp = Some 7\<rparr> \<and>
      calls s' = [Decompress ''K'' ''t''])"
proof -
  have h: "map_of (cache_dir warm) ''K'' = Some \<lparr>st_size = 150, u_timestamp = Some 0\<rparr>"
    by (simp add: warm_def)
  show ?thesis
    using download_hit_frame [OF h, of "''t''" "no_failure\<lparr>clock := 7\<rparr>"] h
    by (auto simp add: warm_def no_failure_def)
qed

subsection \<open>Upload\<close>

text \<open>
  Claim C6. After a successful compression, one comparison decides. If \<open>Remaining_space\<close>
  is below the compressed size, the file is put to the bucket (one remote put, which
  stores the object unless it fails), \<open>Remaining_space\<close> is unchanged and the local file
  is removed. Otherwise no remote call is made, the bucket is unchanged, the timestamp is
  set, the file stays and \<open>Remaining_space\<close> goes down by exactly the compressed size.
\<close>

theorem upload_threshold:
  assumes "\<not> compress_ret e <s 0"
  shows "case cache_layer_upload_seg fpath offset k len e s of (retval, s') \<Rightarrow>
    (if Remaining_space s <s compress_ret e then
       calls s' = calls s @ [Cloud_put k (unat (compress_ret e))] \<and>
       Remaining_space s' = Remaining_space s \<and>
       (\<not> cloud_put_fails e \<longrightarrow> map_of (bucket s') k = Some (unat (compress_ret e))) \<and>
       (\<not> remove_fails e \<longrightarrow> retval = 0 \<and> access_fails k s')
     else
       calls s' = calls s \<and> bucket s' = bucket s \<and>
       (\<not> clock_gettime_fails e \<and> \<not> lsetxattr_fails e \<longrightarrow>
          retval = 0 \<and> Remaining_space s' = Remaining_space s - compress_ret e \<and>
          map_of (cache_dir s') k =
            Some \<lparr>st_size = unat (compress_ret e), u_timestamp = Some (clock e)\<rparr>))"
  using assms
  by (auto simp add: model_defs Let_def update_conv' delete_conv' split: prod.splits if_splits option.splits)

text \<open>The theorem at the scenario of the specification (capacity 1000, nothing used, a
  segment of compressed size 400 stays local and leaves 600), and at a segment of compressed
  size 900 that does not fit in the 850 bytes left of \<open>warm\<close>.\<close>

theorem upload_threshold_witness:
  "\<not> compress_ret (no_failure\<lparr>compress_ret := 400\<rparr>) <s 0 \<and>
   \<not> Remaining_space (snd (cache_layer_init 1000 0 boot)) <s 400 \<and>
   (case cache_layer_upload_seg ''f'' 0 ''A'' 4096 (no_failure\<lparr>compress_ret := 400\<rparr>)
           (snd (cache_layer_init 1000 0 boot)) of (retval, s') \<Rightarrow>
      retval = 0 \<and> Remaining_space s' = 600 \<and> bucket s' = [] \<and> calls s' = [] \<and>
      map_of (cache_dir s') ''A'' = Some \<lparr>st_size = 400, u_timestamp = Some 1\<rparr>) \<and>
   \<not> compress_ret (no_failure\<lparr>compress_ret := 900\<rparr>) <s 0 \<and>
   Remaining_space warm <s 900 \<and>
   (case cache_layer_upload_seg ''f'' 0 ''B'' 4096 (no_failure\<lparr>compress_ret := 900\<rparr>) warm
      of (retval, s') \<Rightarrow>
      retval = 0 \<and> Remaining_space s' = 850 \<and> access_fails ''B'' s' \<and>
      map_of (bucket s') ''B'' = Some 900 \<and> calls s' = [Cloud_put ''B'' 900])"
proof -
  have h1: "\<not> compress_ret (no_failure\<lparr>compress_ret := 400\<rparr>) <s 0"
    by (simp add: no_failure_def word_sless_alt)
  have h2: "\<not> compress_ret (no_failure\<lparr>compress_ret := 900\<rparr>) <s 0"
    by (simp add: no_failure_def word_sless_alt)
  have room: "\<not> Remaining_space (snd (cache_layer_init 1000 0 boot)) <s 400"
    by (simp add: cache_layer_init_def word_sless_alt)
  have full: "Remaining_space warm <s 900"
    by (simp add: warm_def word_sless_alt)
  show ?thesis
    using upload_threshold [where fpath = "''f''" and offset = 0 and k = "''A''" and len = 4096
          and s = "snd (cache_layer_init 1000 0 boot)", OF h1]
      upload_threshold [where fpath = "''f''" and offset = 0 and k = "''B''" and len = 4096
          and s = warm, OF h2] h1 h2 room full
    by (auto simp add: no_failure_def cache_layer_init_def boot_def warm_def)
qed

subsection \<open>Remove\<close>

lemma remove_seg_miss:
  "access_fails k s \<Longrightarrow> cache_layer_remove_seg k e s = (0, cloud_delete_object k e s)"
  by (simp add: cache_layer_remove_seg_def)

lemma remove_seg_hit:
  "map_of (cache_dir s) k = Some f \<Longrightarrow> \<not> lstat_fails e \<Longrightarrow> \<not> remove_fails e \<Longrightarrow>
   cache_layer_remove_seg k e s =
     (0, s\<lparr>cache_dir := AList.delete k (cache_dir s),
           Remaining_space := Remaining_space s + of_nat (st_size f)\<rparr>)"
  by (simp add: cache_layer_remove_seg_def access_fails_def lstat_def remove_file_def)

lemma cloud_delete_object_frame:
  "cache_dir (cloud_delete_object k e s) = cache_dir s \<and>
   Remaining_space (cloud_delete_object k e s) = Remaining_space s \<and>
   Total_space (cloud_delete_object k e s) = Total_space s \<and>
   bucket (cloud_delete_object k e s) =
     (if cloud_delete_fails e then bucket s else AList.delete k (bucket s))"
  by (simp add: cloud_delete_object_def Let_def)

text \<open>
  Claim C7, as amended. Removing a key that is neither in the cache directory nor in the bucket
  returns 0 and leaves the cache directory, the bucket and \<open>Remaining_space\<close> as they are.
  For a key that is not in both places at once, a removal whose calls succeed returns 0,
  and a second removal right after it (in any environment) returns 0 and leaves the cache
  directory, the bucket and \<open>Remaining_space\<close> as the first one left them.
\<close>

theorem remove_idempotent:
  "(access_fails k s \<and> map_of (bucket s) k = None \<longrightarrow>
      fst (cache_layer_remove_seg k e s) = 0 \<and>
      cache_dir (snd (cache_layer_remove_seg k e s)) = cache_dir s \<and>
      bucket (snd (cache_layer_remove_seg k e s)) = bucket s \<and>
      Remaining_space (snd (cache_layer_remove_seg k e s)) = Remaining_space s) \<and>
   ((access_fails k s \<or> map_of (bucket s) k = None) \<and>
    \<not> lstat_fails e \<and> \<not> remove_fails e \<and> \<not> cloud_delete_fails e \<longrightarrow>
      fst (cache_layer_remove_seg k e s) = 0 \<and>
      fst (cache_layer_remove_seg k e' (snd (cache_layer_remove_seg k e s))) = 0 \<and>
      cache_dir (snd (cache_layer_remove_seg k e' (snd (cache_layer_remove_seg k e s)))) =
        cache_dir (snd (cache_layer_remove_seg k e s)) \<and>
      bucket (snd (cache_layer_remove_seg k e' (snd (cache_layer_remove_seg k e s)))) =
        bucket (snd (cache_layer_remove_seg k e s)) \<and>
      Remaining_space (snd (cache_layer_remove_seg k e' (snd (cache_layer_remove_seg k e s)))) =
        Remaining_space (snd (cache_layer_remove_seg k e s)))"
proof (intro conjI impI)
  assume a: "access_fails k s \<and> map_of (bucket s) k = None"
  then show "fst (cache_layer_remove_seg k e s) = 0"
    and "cache_dir (snd (cache_layer_remove_seg k e s)) = cache_dir s"
    and "bucket (snd (cache_layer_remove_seg k e s)) = bucket s"
    and "Remaining_space (snd (cache_layer_remove_seg k e s)) = Remaining_space s"
    by (simp_all add: remove_seg_miss cloud_delete_object_frame map_of_None_delete)
next
  let ?s1 = "snd (cache_layer_remove_seg k e s)"
  assume b: "(access_fails k s \<or> map_of (bucket s) k = None) \<and>
    \<not> lstat_fails e \<and> \<not> remove_fails e \<and> \<not> cloud_delete_fails e"
  have first: "fst (cache_layer_remove_seg k e s) = 0 \<and> access_fails k ?s1 \<and>
    AList.delete k (bucket ?s1) = bucket ?s1"
  proof (cases "map_of (cache_dir s) k")
    case None
    then have "access_fails k s"
      by (simp add: access_fails_def)
    with b show ?thesis
      by (simp add: remove_seg_miss cloud_delete_object_frame delete_idem access_fails_def)
  next
    case (Some f)
    with b have "map_of (bucket s) k = None"
      by (simp add: access_fails_def)
    with b Some show ?thesis
      by (simp add: remove_seg_hit access_fails_def delete_conv' map_of_None_delete)
  qed
  then have second: "cache_layer_remove_seg k e' ?s1 = (0, cloud_delete_object k e' ?s1)"
    by (simp add: remove_seg_miss)
  show "fst (cache_layer_remove_seg k e s) = 0"
    using first by simp
  show "fst (cache_layer_remove_seg k e' ?s1) = 0"
    using second by simp
  show "cache_dir (snd (cache_layer_remove_seg k e' ?s1)) = cache_dir ?s1"
    using second by (simp add: cloud_delete_object_frame)
  show "bucket (snd (cache_layer_remove_seg k e' ?s1)) = bucket ?s1"
    using first second by (simp add: cloud_delete_object_frame)
  show "Remaining_space (snd (cache_layer_remove_seg k e' ?s1)) = Remaining_space ?s1"
    using second by (simp add: cloud_delete_object_frame)
qed

text \<open>The theorem at \<open>warm\<close>, for the absent key \<open>Z\<close> and the cached key \<open>K\<close>.\<close>

theorem remove_idempotent_witness:
  "access_fails ''Z'' warm \<and> map_of (bucket warm) ''Z'' = None \<and>
   fst (cache_layer_remove_seg ''Z'' no_failure warm) = 0 \<and>
   cache_dir (snd (cache_layer_remove_seg ''Z'' no_failure warm)) = cache_dir warm \<and>
   bucket (snd (cache_layer_remove_seg ''Z'' no_failure warm)) = bucket warm \<and>
   Remaining_space (snd (cache_layer_remove_seg ''Z'' no_failure warm)) = 850 \<and>
   (access_fails ''K'' warm \<or> map_of (bucket warm) ''K'' = None) \<and>
   \<not> lstat_fails no_failure \<and> \<not> remove_fails no_failure \<and> \<not> cloud_delete_fails no_failure \<and>
   Remaining_space (snd (cache_layer_remove_seg ''K'' no_failure warm)) = 1000 \<and>
   Remaining_space (snd (cache_layer_remove_seg ''K'' no_failure
       (snd (cache_layer_remove_seg ''K'' no_failure warm)))) = 1000 \<and>
   cache_dir (snd (cache_layer_remove_seg ''K'' no_failure
       (snd (cache_layer_remove_seg ''K'' no_failure warm)))) = []"
proof -
  have a: "access_fails ''Z'' warm \<and> map_of (bucket warm) ''Z'' = None"
    by (simp add: access_fails_def warm_def)
  have b: "(access_fails ''K'' warm \<or> map_of (bucket warm) ''K'' = None) \<and>
    \<not> lstat_fails no_failure \<and> \<not> remove_fails no_failure \<and> \<not> cloud_delete_fails no_failure"
    by (simp add: warm_def no_failure_def)
  have c: "cache_layer_remove_seg ''K'' no_failure warm =
    (0, warm\<lparr>cache_dir := [], Remaining_space := 1000\<rparr>)"
    by (simp add: cache_layer_remove_seg_def access_fails_def lstat_def remove_file_def
        warm_def no_failure_def)
  show ?thesis
    using remove_idempotent [of "''Z''" warm no_failure no_failure]
      remove_idempotent [of "''K''" warm no_failure no_failure] a b c
    by (simp add: warm_def)
qed

text \<open>
  Claim C7 as stated fails for a key that is in both places. After the four successful
  operations of \<open>upload_again\<close> the segment \<open>R\<close> is in the cache directory and in the
  bucket. One removal returns 0, takes the file away and leaves the object in the bucket;
  a second removal returns 0 and deletes the object.
\<close>

theorem remove_twice_differs:
  "map_of (cache_dir (run upload_again started)) ''R'' =
     Some \<lparr>st_size = 700, u_timestamp = Some 1\<rparr> \<and>
   map_of (bucket (run upload_again started)) ''R'' = Some 700 \<and>
   fst (cache_layer_remove_seg ''R'' no_failure (run upload_again started)) = 0 \<and>
   cache_dir (snd (cache_layer_remove_seg ''R'' no_failure (run upload_again started))) = [] \<and>
   bucket (snd (cache_layer_remove_seg ''R'' no_failure (run upload_again started))) =
     [(''R'', 700)] \<and>
   fst (cache_layer_remove_seg ''R'' no_failure
     (snd (cache_layer_remove_seg ''R'' no_failure (run upload_again started)))) = 0 \<and>
   bucket (snd (cache_layer_remove_seg ''R'' no_failure
     (snd (cache_layer_remove_seg ''R'' no_failure (run upload_again started))))) = [] \<and>
   bucket (snd (cache_layer_remove_seg ''R'' no_failure
     (snd (cache_layer_remove_seg ''R'' no_failure (run upload_again started))))) \<noteq>
   bucket (snd (cache_layer_remove_seg ''R'' no_failure (run upload_again started)))"
  by code_simp

subsection \<open>Space conservation\<close>

lemma used_update_None:
  "map_of al k = None \<Longrightarrow> used (AList.update k f al) = used al + st_size f"
  by (induction al) (auto simp add: used_def split: if_splits)

lemma used_update_Some:
  "map_of al k = Some g \<Longrightarrow> used (AList.update k f al) + st_size g = used al + st_size f"
  by (induction al) (auto simp add: used_def split: if_splits)

lemma used_delete:
  "distinct (map fst al) \<Longrightarrow> map_of al k = Some g \<Longrightarrow>
   used (AList.delete k al) + st_size g = used al"
proof (induction al)
  case Nil
  then show ?case by simp
next
  case (Cons a al)
  show ?case
  proof (cases "fst a = k")
    case True
    with Cons.prems have "k \<notin> fst ` set al" and "snd a = g"
      by auto
    with True show ?thesis
      by (cases a) (simp add: used_def)
  next
    case False
    with Cons show ?thesis
      by (cases a) (simp add: used_def)
  qed
qed

lemma update_timestamp_frame:
  "Remaining_space (snd (update_timestamp k e s)) = Remaining_space s \<and>
   Total_space (snd (update_timestamp k e s)) = Total_space s \<and>
   bucket (snd (update_timestamp k e s)) = bucket s \<and>
   calls (snd (update_timestamp k e s)) = calls s \<and>
   used (cache_dir (snd (update_timestamp k e s))) = used (cache_dir s) \<and>
   map fst (cache_dir (snd (update_timestamp k e s))) = map fst (cache_dir s)"
proof (cases "map_of (cache_dir s) k")
  case None
  then show ?thesis
    by (simp add: update_timestamp_def lsetxattr_def)
next
  case (Some f)
  have "used (AList.update k (f\<lparr>u_timestamp := Some (clock e)\<rparr>) (cache_dir s)) =
    used (cache_dir s)"
    using used_update_Some [OF Some, of "f\<lparr>u_timestamp := Some (clock e)\<rparr>"] by simp
  moreover have "k \<in> fst ` set (cache_dir s)"
    using Some map_of_eq_None_iff [of "cache_dir s" k] by auto
  ultimately show ?thesis
    using Some by (simp add: update_timestamp_def lsetxattr_def update_keys)
qed

text \<open>What a download that misses the cache does after the segment has been fetched and its
  size taken off: it sets the timestamp and, unless that fails, deletes the remote object.\<close>

lemma download_miss:
  assumes "access_fails k s" and "\<not> lstat_fails e"
  shows "\<exists>n. snd (cache_layer_download_seg target_file k e s) \<in>
     {snd (update_timestamp k e (reserved k e s)),
      cloud_delete_object k e (snd (update_timestamp k e (reserved k e s)))} \<and>
     reserved k e s =
       s\<lparr>cache_dir := AList.update k \<lparr>st_size = n, u_timestamp = None\<rparr> (cache_dir s),
         calls := calls s @ [Cloud_get k],
         Remaining_space := Remaining_space s - of_nat n\<rparr> \<and>
     (\<not> clock_gettime_fails e \<and> \<not> lsetxattr_fails e \<longrightarrow>
        snd (cache_layer_download_seg target_file k e s) =
          cloud_delete_object k e (snd (update_timestamp k e (reserved k e s))))"
proof -
  obtain n where s1: "cloud_get_object k e (fopen_wb k s) =
     s\<lparr>cache_dir := AList.update k \<lparr>st_size = n, u_timestamp = None\<rparr> (cache_dir s),
       calls := calls s @ [Cloud_get k]\<rparr>"
    using fetch_result [of k e s] by auto
  have res: "reserved k e s =
     s\<lparr>cache_dir := AList.update k \<lparr>st_size = n, u_timestamp = None\<rparr> (cache_dir s),
       calls := calls s @ [Cloud_get k],
       Remaining_space := Remaining_space s - of_nat n\<rparr>"
    using assms(2) by (simp add: reserved_def s1 lstat_def update_conv')
  have body: "cache_layer_download_seg target_file k e s =
    (case update_timestamp k e (reserved k e s) of (retval, s3) \<Rightarrow>
       if retval <s 0 then (retval, s3) else (retval, cloud_delete_object k e s3))"
    using assms
    by (simp add: cache_layer_download_seg_def download_seg_with_def s1 res lstat_def
        update_conv' evict_segments_def CANNOT_EVICT_def Let_def)
  have ok: "fst (update_timestamp k e (reserved k e s)) = 0"
    if "\<not> clock_gettime_fails e" "\<not> lsetxattr_fails e"
    using that by (simp add: update_timestamp_def lsetxattr_def res update_conv')
  show ?thesis
    using res ok by (auto simp add: body split: prod.splits)
qed

lemma books_transfer:
  assumes "Remaining_space s' = Remaining_space s" and "Total_space s' = Total_space s"
    and "used (cache_dir s') = used (cache_dir s)"
    and "map fst (cache_dir s') = map fst (cache_dir s)"
  shows "space_conserved s' = space_conserved s" and "names_distinct s' = names_distinct s"
  using assms by (simp_all add: space_conserved_def names_distinct_def)

lemma books_update_timestamp:
  "space_conserved (snd (update_timestamp k e s)) = space_conserved s"
  "names_distinct (snd (update_timestamp k e s)) = names_distinct s"
  by (rule books_transfer; simp add: update_timestamp_frame)+

lemma books_cloud_delete_object:
  "space_conserved (cloud_delete_object k e s) = space_conserved s"
  "names_distinct (cloud_delete_object k e s) = names_distinct s"
  by (rule books_transfer; simp add: cloud_delete_object_frame)+

lemma download_conserved:
  assumes "names_distinct s" and "space_conserved s"
    and "keeps_count (Download target_file k) e s"
  shows "space_conserved (snd (cache_layer_download_seg target_file k e s)) \<and>
    names_distinct (snd (cache_layer_download_seg target_file k e s))"
proof (cases "access_fails k s")
  case True
  with assms(3) have "\<not> lstat_fails e"
    by simp
  from download_miss [OF True this, of target_file] obtain n
    where res: "reserved k e s =
       s\<lparr>cache_dir := AList.update k \<lparr>st_size = n, u_timestamp = None\<rparr> (cache_dir s),
         calls := calls s @ [Cloud_get k],
         Remaining_space := Remaining_space s - of_nat n\<rparr>"
      and out: "snd (cache_layer_download_seg target_file k e s) \<in>
       {snd (update_timestamp k e (reserved k e s)),
        cloud_delete_object k e (snd (update_timestamp k e (reserved k e s)))}"
    by blast
  have "used (cache_dir (reserved k e s)) = used (cache_dir s) + n"
    using True by (simp add: res access_fails_def used_update_None)
  with assms(2) have "space_conserved (reserved k e s)"
    by (simp add: space_conserved_def res)
  moreover from assms(1) have "names_distinct (reserved k e s)"
    by (simp add: names_distinct_def res distinct_update)
  ultimately show ?thesis
    using out by (auto simp add: books_update_timestamp books_cloud_delete_object)
next
  case False
  then have "cache_layer_download_seg target_file k e s =
    (case update_timestamp k e s of (retval, s1) \<Rightarrow>
       if retval <s 0 then (retval, s1) else compress_layer_decompress k target_file e s1)"
    by (simp add: cache_layer_download_seg_def download_seg_with_def)
  then have "snd (cache_layer_download_seg target_file k e s) = snd (update_timestamp k e s) \<or>
    snd (cache_layer_download_seg target_file k e s) =
      (snd (update_timestamp k e s))\<lparr>calls := calls (snd (update_timestamp k e s)) @
        [Decompress k target_file]\<rparr>"
    by (auto simp add: compress_layer_decompress_def split: prod.splits)
  moreover have "space_conserved (s'\<lparr>calls := c\<rparr>) = space_conserved s'"
    "names_distinct (s'\<lparr>calls := c\<rparr>) = names_distinct s'" for s' c
    by (simp_all add: space_conserved_def names_distinct_def)
  ultimately show ?thesis
    using assms(1,2) by (auto simp add: books_update_timestamp)
qed

lemma upload_conserved:
  assumes "names_distinct s" and "space_conserved s"
    and "keeps_count (Upload fpath offset k len) e s"
  shows "space_conserved (snd (cache_layer_upload_seg fpath offset k len e s)) \<and>
    names_distinct (snd (cache_layer_upload_seg fpath offset k len e s))"
proof -
  from assms(3) have miss: "map_of (cache_dir s) k = None" and ok: "\<not> compress_ret e <s 0"
    by (simp_all add: access_fails_def)
  show ?thesis
  proof (cases "Remaining_space s <s compress_ret e")
    case True
    with assms(3) have "\<not> remove_fails e"
      by simp
    with True miss ok have "cache_dir (snd (cache_layer_upload_seg fpath offset k len e s)) =
        cache_dir s \<and>
      Remaining_space (snd (cache_layer_upload_seg fpath offset k len e s)) =
        Remaining_space s \<and>
      Total_space (snd (cache_layer_upload_seg fpath offset k len e s)) = Total_space s"
      by (simp add: cache_layer_upload_seg_def compress_layer_compress_def
          cloud_put_object_def remove_file_def Let_def update_conv' delete_update_same
          map_of_None_delete)
    with assms(1,2) show ?thesis
      by (simp add: space_conserved_def names_distinct_def)
  next
    case False
    with assms(3) have "\<not> clock_gettime_fails e" and "\<not> lsetxattr_fails e"
      by simp_all
    with False miss ok have "cache_dir (snd (cache_layer_upload_seg fpath offset k len e s)) =
        AList.update k \<lparr>st_size = unat (compress_ret e), u_timestamp = Some (clock e)\<rparr>
          (cache_dir s) \<and>
      Remaining_space (snd (cache_layer_upload_seg fpath offset k len e s)) =
        Remaining_space s - compress_ret e \<and>
      Total_space (snd (cache_layer_upload_seg fpath offset k len e s)) = Total_space s"
      by (simp add: cache_layer_upload_seg_def compress_layer_compress_def
          update_timestamp_def lsetxattr_def update_conv')
    with assms(1,2) miss show ?thesis
      by (simp add: space_conserved_def names_distinct_def used_update_None distinct_update)
  qed
qed

lemma remove_conserved:
  assumes "names_distinct s" and "space_conserved s"
  shows "space_conserved (snd (cache_layer_remove_seg k e s)) \<and>
    names_distinct (snd (cache_layer_remove_seg k e s))"
proof (cases "map_of (cache_dir s) k")
  case None
  then show ?thesis
    using assms by (simp add: remove_seg_miss access_fails_def books_cloud_delete_object)
next
  case (Some f)
  show ?thesis
  proof (cases "lstat_fails e \<or> remove_fails e")
    case True
    then have "snd (cache_layer_remove_seg k e s) = s"
      using Some
      by (auto simp add: cache_layer_remove_seg_def access_fails_def lstat_def remove_file_def)
    with assms show ?thesis
      by simp
  next
    case False
    from assms(1) Some have "used (AList.delete k (cache_dir s)) + st_size f = used (cache_dir s)"
      by (simp add: names_distinct_def used_delete)
    then have "(of_nat (used (cache_dir s)) :: c_long) =
      of_nat (used (AList.delete k (cache_dir s))) + of_nat (st_size f)"
      by (metis of_nat_add)
    with assms False Some show ?thesis
      by (simp add: remove_seg_hit space_conserved_def names_distinct_def distinct_delete)
  qed
qed

lemma step_conserved:
  assumes "names_distinct s" and "space_conserved s" and "keeps_count p e s"
  shows "space_conserved (snd (step p e s)) \<and> names_distinct (snd (step p e s))"
proof (cases p)
  case (Download target_file k)
  with assms show ?thesis
    using download_conserved [of s target_file k e] by simp
next
  case (Upload fpath offset k len)
  with assms show ?thesis
    using upload_conserved [of s fpath offset k len e] by simp
next
  case (Remove k)
  with assms show ?thesis
    using remove_conserved [of s k e] by simp
qed

lemma run_conserved:
  "names_distinct s \<Longrightarrow> space_conserved s \<Longrightarrow> holds_along keeps_count ops s \<Longrightarrow>
   space_conserved (run ops s) \<and> names_distinct (run ops s)"
proof (induction ops arbitrary: s)
  case Nil
  then show ?case by simp
next
  case (Cons a ops)
  obtain p e where a: "a = (p, e)"
    by (cases a)
  with Cons.prems have "space_conserved (snd (step p e s)) \<and> names_distinct (snd (step p e s))"
    by (simp add: step_conserved)
  with Cons.prems a show ?case
    by (simp add: Cons.IH)
qed

lemma holds_along_take:
  "holds_along C ops s \<Longrightarrow> holds_along C (take n ops) s"
proof (induction ops arbitrary: n s)
  case Nil
  then show ?case by simp
next
  case (Cons a ops)
  then show ?case
    by (cases a; cases n) simp_all
qed

text \<open>
  Claim C2, as amended. Take a cache directory without duplicate names in which the count
  is right, and a sequence of downloads, uploads and removals in which every upload is of
  a key that has no file in the cache directory at that moment, with its compression and
  its last local step succeeding, and every download that misses the cache gets through
  \<open>lstat\<close>. Then after every operation of the sequence \<open>Remaining_space\<close> is
  \<open>Total_space\<close> minus the bytes of the files in the cache directory.
\<close>

theorem space_conservation:
  assumes "names_distinct s" and "space_conserved s" and "holds_along keeps_count ops s"
  shows "\<forall>n \<le> length ops. space_conserved (run (take n ops) s)"
  using assms by (simp add: run_conserved holds_along_take)

text \<open>The theorem at the sequence \<open>scenario\<close>: after four operations the cache directory
  holds 1100 bytes and \<open>Remaining_space\<close> is -100; after all six it is empty.\<close>

theorem space_conservation_witness:
  "names_distinct started \<and> space_conserved started \<and>
   holds_along keeps_count scenario started \<and>
   space_conserved (run (take 4 scenario) started) \<and>
   Remaining_space (run (take 4 scenario) started) = - 100 \<and>
   used (cache_dir (run (take 4 scenario) started)) = 1100 \<and>
   space_conserved (run (take 6 scenario) started) \<and>
   Remaining_space (run (take 6 scenario) started) = 1000 \<and>
   used (cache_dir (run (take 6 scenario) started)) = 0"
proof -
  have h1: "names_distinct started"
    by code_simp
  have h2: "space_conserved started"
    by code_simp
  have h3: "holds_along keeps_count scenario started"
    by code_simp
  have len: "4 \<le> length scenario" "6 \<le> length scenario"
    by (simp_all add: scenario_def)
  have vals: "Remaining_space (run (take 4 scenario) started) = - 100"
    "used (cache_dir (run (take 4 scenario) started)) = 1100"
    "Remaining_space (run (take 6 scenario) started) = 1000"
    "used (cache_dir (run (take 6 scenario) started)) = 0"
    by code_simp+
  note c = space_conservation [OF h1 h2 h3, rule_format]
  show ?thesis
    using h1 h2 h3 c [OF len(1)] c [OF len(2)] vals by simp
qed

text \<open>
  Claim C2 as stated fails: \<open>cache_layer_upload_seg\<close> does not look for a file of the key
  before it compresses into it. A second upload of the same segment takes its 400 bytes
  off \<open>Remaining_space\<close> once more, while the cache directory still holds 400 bytes.
\<close>

theorem upload_twice_counts_twice:
  "names_distinct started \<and> space_conserved started \<and>
   Total_space (run upload_twice started) = 1000 \<and>
   used (cache_dir (run upload_twice started)) = 400 \<and>
   Remaining_space (run upload_twice started) = 200 \<and>
   \<not> space_conserved (run upload_twice started)"
  by code_simp

text \<open>The equation of \<open>space_conserved\<close> read in the integers, as long as the bytes in the
  cache directory stay within the range of \<open>long\<close>.\<close>

lemma sint_of_nat_long:
  "n < 2 ^ 63 \<Longrightarrow> sint (of_nat n :: c_long) = int n"
  by (simp add: signed_of_nat signed_take_bit_int_eq_self)

lemma space_conserved_sint:
  assumes "space_conserved s" and "used (cache_dir s) < 2 ^ 63"
    and "- (2 ^ 63) \<le> sint (Total_space s) - int (used (cache_dir s))"
  shows "sint (Remaining_space s) = sint (Total_space s) - int (used (cache_dir s))"
proof -
  have "sint (Total_space s) < 2 ^ 63"
    using sint_lt [of "Total_space s"] by simp
  then have "sint (Total_space s) - int (used (cache_dir s)) < 2 ^ 63"
    by linarith
  with assms show ?thesis
    by (simp add: space_conserved_def sint_word_diff sint_of_nat_long
        signed_take_bit_int_eq_self)
qed

subsection \<open>Mutual exclusivity\<close>

lemma keys_delete: "fst ` set (AList.delete k al) = fst ` set al - {k}"
  using delete_keys [of k al, THEN arg_cong, of set] by simp

lemma keys_map_of: "(k \<in> fst ` set al) = (map_of al k \<noteq> None)"
  by (simp add: map_of_eq_None_iff)

lemma exclusive_iff:
  "exclusive s = (\<forall>k. access_fails k s \<or> map_of (bucket s) k = None)"
  by (auto simp add: exclusive_def access_fails_def map_of_eq_None_iff)

lemma update_timestamp_keys:
  "fst ` set (cache_dir (snd (update_timestamp k e s))) = fst ` set (cache_dir s)"
  "bucket (snd (update_timestamp k e s)) = bucket s"
proof -
  have "map fst (cache_dir (snd (update_timestamp k e s))) = map fst (cache_dir s)"
    by (simp add: update_timestamp_frame)
  then have "set (map fst (cache_dir (snd (update_timestamp k e s)))) =
    set (map fst (cache_dir s))"
    by simp
  then show "fst ` set (cache_dir (snd (update_timestamp k e s))) = fst ` set (cache_dir s)"
    by simp
  show "bucket (snd (update_timestamp k e s)) = bucket s"
    by (simp add: update_timestamp_frame)
qed

lemma exclusive_calls: "exclusive (s\<lparr>calls := c\<rparr>) = exclusive s"
  by (simp add: exclusive_def)

lemma cloud_delete_object_keys:
  "fst ` set (cache_dir (cloud_delete_object k e s)) = fst ` set (cache_dir s)"
  "fst ` set (bucket (cloud_delete_object k e s)) =
     (if cloud_delete_fails e then fst ` set (bucket s) else fst ` set (bucket s) - {k})"
  by (simp_all add: cloud_delete_object_frame keys_delete)

lemma exclusiveI:
  "fst ` set (cache_dir s) \<subseteq> L \<Longrightarrow> fst ` set (bucket s) \<subseteq> B \<Longrightarrow> L \<inter> B = {} \<Longrightarrow>
   exclusive s"
  unfolding exclusive_def by blast

lemma disjoint_insert_fresh: "L \<inter> B = {} \<Longrightarrow> k \<notin> B \<Longrightarrow> insert k L \<inter> B = {}"
  by blast

lemma disjoint_insert_minus: "L \<inter> B = {} \<Longrightarrow> insert k L \<inter> (B - {k}) = {}"
  by blast

lemma download_apart:
  assumes "exclusive s" and "keeps_apart (Download target_file k) e s"
  shows "exclusive (snd (cache_layer_download_seg target_file k e s))"
proof (cases "access_fails k s")
  case False
  then have "cache_layer_download_seg target_file k e s =
    (case update_timestamp k e s of (retval, s1) \<Rightarrow>
       if retval <s 0 then (retval, s1) else compress_layer_decompress k target_file e s1)"
    by (simp add: cache_layer_download_seg_def download_seg_with_def)
  then have "snd (cache_layer_download_seg target_file k e s) = snd (update_timestamp k e s) \<or>
    snd (cache_layer_download_seg target_file k e s) =
      (snd (update_timestamp k e s))\<lparr>calls := calls (snd (update_timestamp k e s)) @
        [Decompress k target_file]\<rparr>"
    by (auto simp add: compress_layer_decompress_def split: prod.splits)
  moreover have "exclusive (snd (update_timestamp k e s))"
    using assms(1) by (simp add: exclusive_def update_timestamp_keys)
  ultimately show ?thesis
    by (elim disjE) (simp_all add: exclusive_calls)
next
  case True
  show ?thesis
  proof (cases "lstat_fails e")
    case lf: True
    with assms(2) True have nb: "map_of (bucket s) k = None"
      by auto
    obtain n where s1: "cloud_get_object k e (fopen_wb k s) =
       s\<lparr>cache_dir := AList.update k \<lparr>st_size = n, u_timestamp = None\<rparr> (cache_dir s),
         calls := calls s @ [Cloud_get k]\<rparr>"
      using fetch_result [of k e s] by auto
    from True lf have "snd (cache_layer_download_seg target_file k e s) =
      cloud_get_object k e (fopen_wb k s)"
      by (simp add: cache_layer_download_seg_def download_seg_with_def lstat_def Let_def
          split: option.splits)
    with assms(1) nb show ?thesis
      by (auto simp add: s1 exclusive_def dom_update keys_map_of)
  next
    case False
    let ?u = "snd (update_timestamp k e (reserved k e s))"
    from download_miss [OF True False, of target_file] obtain n
      where res: "reserved k e s =
         s\<lparr>cache_dir := AList.update k \<lparr>st_size = n, u_timestamp = None\<rparr> (cache_dir s),
           calls := calls s @ [Cloud_get k],
           Remaining_space := Remaining_space s - of_nat n\<rparr>"
        and out: "snd (cache_layer_download_seg target_file k e s) \<in>
          {?u, cloud_delete_object k e ?u}"
        and all: "\<not> clock_gettime_fails e \<and> \<not> lsetxattr_fails e \<longrightarrow>
          snd (cache_layer_download_seg target_file k e s) = cloud_delete_object k e ?u"
      by blast
    have u: "fst ` set (cache_dir ?u) = insert k (fst ` set (cache_dir s))" "bucket ?u = bucket s"
      by (simp_all add: update_timestamp_keys) (simp_all add: res dom_update)
    have old: "fst ` set (cache_dir s) \<inter> fst ` set (bucket s) = {}"
      using assms(1) by (simp add: exclusive_def)
    from out consider
      (stopped) "snd (cache_layer_download_seg target_file k e s) = ?u" |
      (deleted) "snd (cache_layer_download_seg target_file k e s) = cloud_delete_object k e ?u"
      by blast
    then have "fst ` set (cache_dir (snd (cache_layer_download_seg target_file k e s))) =
        insert k (fst ` set (cache_dir s)) \<and>
      fst ` set (bucket (snd (cache_layer_download_seg target_file k e s)))
        \<subseteq> fst ` set (bucket s)"
      by cases (simp_all add: u cloud_delete_object_keys)
    then have local: "fst ` set (cache_dir (snd (cache_layer_download_seg target_file k e s))) =
        insert k (fst ` set (cache_dir s))"
      and remote: "fst ` set (bucket (snd (cache_layer_download_seg target_file k e s)))
        \<subseteq> fst ` set (bucket s)"
      by simp_all
    show ?thesis
    proof (cases "map_of (bucket s) k")
      case None
      then have "k \<notin> fst ` set (bucket s)"
        by (simp add: keys_map_of)
      with old have "insert k (fst ` set (cache_dir s)) \<inter> fst ` set (bucket s) = {}"
        by (rule disjoint_insert_fresh)
      with remote show ?thesis
        by (intro exclusiveI [where L = "insert k (fst ` set (cache_dir s))"
              and B = "fst ` set (bucket s)"]) (simp_all add: local)
    next
      case (Some m)
      with assms(2) True all
      have "snd (cache_layer_download_seg target_file k e s) = cloud_delete_object k e ?u"
        and "\<not> cloud_delete_fails e"
        by simp_all
      then have "fst ` set (bucket (snd (cache_layer_download_seg target_file k e s))) =
        fst ` set (bucket s) - {k}"
        by (simp add: u cloud_delete_object_keys)
      moreover from old
      have "insert k (fst ` set (cache_dir s)) \<inter> (fst ` set (bucket s) - {k}) = {}"
        by (rule disjoint_insert_minus)
      ultimately show ?thesis
        by (intro exclusiveI [where L = "insert k (fst ` set (cache_dir s))"
              and B = "fst ` set (bucket s) - {k}"]) (simp_all add: local)
    qed
  qed
qed

lemma upload_apart:
  assumes "exclusive s" and "keeps_apart (Upload fpath offset k len) e s"
  shows "exclusive (snd (cache_layer_upload_seg fpath offset k len e s))"
proof -
  from assms(2) have ok: "\<not> compress_ret e <s 0"
    by simp
  show ?thesis
  proof (cases "Remaining_space s <s compress_ret e")
    case True
    with assms(2) have "\<not> remove_fails e"
      by simp
    with True ok have
      "cache_dir (snd (cache_layer_upload_seg fpath offset k len e s)) =
         AList.delete k (cache_dir s)"
      "bucket (snd (cache_layer_upload_seg fpath offset k len e s)) =
         (if cloud_put_fails e then bucket s
          else AList.update k (unat (compress_ret e)) (bucket s))"
      by (simp_all add: cache_layer_upload_seg_def compress_layer_compress_def
          cloud_put_object_def remove_file_def Let_def update_conv' delete_update_same)
    with assms(1) show ?thesis
      by (auto simp add: exclusive_def keys_delete dom_update)
  next
    case False
    with assms(2) have nb: "map_of (bucket s) k = None"
      by simp
    let ?c = "s\<lparr>cache_dir := AList.update k
      \<lparr>st_size = unat (compress_ret e), u_timestamp = None\<rparr> (cache_dir s)\<rparr>"
    from False ok have "cache_layer_upload_seg fpath offset k len e s =
      (case update_timestamp k e ?c of (retval, s2) \<Rightarrow>
         if retval <s 0 then (retval, s2)
         else (retval, s2\<lparr>Remaining_space := Remaining_space s2 - compress_ret e\<rparr>))"
      by (simp add: cache_layer_upload_seg_def compress_layer_compress_def)
    then have "cache_dir (snd (cache_layer_upload_seg fpath offset k len e s)) =
        cache_dir (snd (update_timestamp k e ?c)) \<and>
      bucket (snd (cache_layer_upload_seg fpath offset k len e s)) =
        bucket (snd (update_timestamp k e ?c))"
      by (auto split: prod.splits)
    moreover have "fst ` set (cache_dir (snd (update_timestamp k e ?c))) =
        insert k (fst ` set (cache_dir s))"
      "bucket (snd (update_timestamp k e ?c)) = bucket s"
      by (simp_all add: update_timestamp_keys dom_update)
    ultimately show ?thesis
      using assms(1) nb by (auto simp add: exclusive_def keys_map_of)
  qed
qed

lemma remove_apart:
  assumes "exclusive s"
  shows "exclusive (snd (cache_layer_remove_seg k e s))"
proof (cases "map_of (cache_dir s) k")
  case None
  with assms show ?thesis
    by (auto simp add: remove_seg_miss access_fails_def exclusive_def
        cloud_delete_object_frame keys_delete)
next
  case (Some f)
  show ?thesis
  proof (cases "lstat_fails e \<or> remove_fails e")
    case True
    then have "snd (cache_layer_remove_seg k e s) = s"
      using Some
      by (auto simp add: cache_layer_remove_seg_def access_fails_def lstat_def remove_file_def)
    with assms show ?thesis
      by simp
  next
    case False
    with assms Some show ?thesis
      by (auto simp add: remove_seg_hit exclusive_def keys_delete)
  qed
qed

lemma step_apart:
  assumes "exclusive s" and "keeps_apart p e s"
  shows "exclusive (snd (step p e s))"
proof (cases p)
  case (Download target_file k)
  with assms show ?thesis
    using download_apart [of s target_file k e] by simp
next
  case (Upload fpath offset k len)
  with assms show ?thesis
    using upload_apart [of s fpath offset k len e] by simp
next
  case (Remove k)
  with assms show ?thesis
    using remove_apart [of s k e] by simp
qed

lemma run_apart:
  "exclusive s \<Longrightarrow> holds_along keeps_apart ops s \<Longrightarrow> exclusive (run ops s)"
proof (induction ops arbitrary: s)
  case Nil
  then show ?case by simp
next
  case (Cons a ops)
  obtain p e where a: "a = (p, e)"
    by (cases a)
  with Cons.prems have "exclusive (snd (step p e s))"
    by (simp add: step_apart)
  with Cons.prems a show ?case
    by (simp add: Cons.IH)
qed

text \<open>
  Claim C3, as amended. Take a state in which no key is both in the cache directory and in
  the bucket, and a sequence of downloads, uploads and removals in which every upload's
  compression succeeds and the upload either finds no room and removes its local file, or
  finds room for a key that the bucket does not hold, and in which every download that
  misses the cache for a key that the bucket holds gets through \<open>lstat\<close>, the timestamp
  and the deletion of the remote object. Then after every operation of the sequence, every
  key is absent from the cache directory or absent from the bucket.
\<close>

theorem mutual_exclusivity:
  assumes "exclusive s" and "holds_along keeps_apart ops s"
  shows "\<forall>n \<le> length ops. \<forall>k.
    access_fails k (run (take n ops) s) \<or> map_of (bucket (run (take n ops) s)) k = None"
  using assms by (simp add: run_apart holds_along_take flip: exclusive_iff)

text \<open>The theorem at the sequence \<open>scenario\<close>, for the key \<open>B\<close>: after three operations it is
  in the bucket and not in the cache directory, after four the other way round.\<close>

theorem mutual_exclusivity_witness:
  "exclusive started \<and> holds_along keeps_apart scenario started \<and>
   (access_fails ''B'' (run (take 3 scenario) started) \<or>
    map_of (bucket (run (take 3 scenario) started)) ''B'' = None) \<and>
   map_of (bucket (run (take 3 scenario) started)) ''B'' = Some 700 \<and>
   (access_fails ''B'' (run (take 4 scenario) started) \<or>
    map_of (bucket (run (take 4 scenario) started)) ''B'' = None) \<and>
   map_of (cache_dir (run (take 4 scenario) started)) ''B'' =
     Some \<lparr>st_size = 700, u_timestamp = Some 1\<rparr>"
proof -
  have h1: "exclusive started"
    by code_simp
  have h2: "holds_along keeps_apart scenario started"
    by code_simp
  have len: "3 \<le> length scenario" "4 \<le> length scenario"
    by (simp_all add: scenario_def)
  have vals: "map_of (bucket (run (take 3 scenario) started)) ''B'' = Some 700"
    "map_of (cache_dir (run (take 4 scenario) started)) ''B'' =
       Some \<lparr>st_size = 700, u_timestamp = Some 1\<rparr>"
    by code_simp+
  note x = mutual_exclusivity [OF h1 h2, rule_format]
  show ?thesis
    using h1 h2 x [OF len(1), of "''B''"] x [OF len(2), of "''B''"] vals by simp
qed

text \<open>
  Claim C3 as stated fails: an upload that finds room keeps the file and never looks at
  the bucket. \<open>R\<close>, put to the bucket by its first upload for lack of room, is in both
  places after its second upload.
\<close>

theorem upload_again_keeps_both:
  "exclusive started \<and>
   map_of (cache_dir (run upload_again started)) ''R'' =
     Some \<lparr>st_size = 700, u_timestamp = Some 1\<rparr> \<and>
   map_of (bucket (run upload_again started)) ''R'' = Some 700 \<and>
   \<not> exclusive (run upload_again started)"
  by code_simp

end
